theory Spec2Isabelle
  imports Main
begin

section \<open>Values that cross the channel\<close>

text \<open>
  The values that methods take, return and throw, and that envelopes carry. \<open>Undefined\<close>
  also stands for a property that is absent from an object: reading it gives
  \<^verbatim>\<open>undefined\<close>, which is all the source ever tests. \<open>ErrorObj m\<close> is an instance of
  \<^verbatim>\<open>Error\<close> (or of a subclass such as \<^verbatim>\<open>TypeError\<close>) whose \<^verbatim>\<open>message\<close> is \<open>m\<close>; every
  other constructor is a value for which \<^verbatim>\<open>instanceof Error\<close> is false. Numbers are
  restricted to the integers. A value that is a \<^verbatim>\<open>Promise\<close> is not a \<open>js_value\<close>: it can
  only appear as the result of a method, see \<open>outcome\<close>.
\<close>

datatype js_value =
    Undefined
  | Null
  | Bool bool
  | Num int
  | Str string
  | ErrorObj string
  | Arr "js_value list"
  | Obj "(string \<times> js_value) list"

section \<open>The data model of collab.ts\<close>

type_synonym TransactionID = string

text \<open>
  A promise is pending, or settled one way or the other. The promises that proxy calls
  create live in a store, a list indexed by reference.
\<close>

datatype promise_state = Pending | Fulfilled js_value | Rejected js_value

text \<open>
  \<^verbatim>\<open>interface Transaction\<close>: \<^verbatim>\<open>resolvePromise\<close> and \<^verbatim>\<open>rejectPromise\<close> are the two
  functions of one promise (line 172 hands both to the record), so the record holds the
  reference of that promise.
\<close>

record Transaction =
  transactionID :: TransactionID
  promise :: nat

text \<open>
  \<^verbatim>\<open>CollabMessage\<close>, the tagged union on \<^verbatim>\<open>type\<close>. \<open>CallMessage transactionID func args\<close>
  and \<open>ReturnMessage transactionID value ex\<close> are the two declared shapes. The handler also
  has a branch for a \<^verbatim>\<open>type\<close> that is neither: \<open>OtherMessage t\<close> is such an envelope, with
  \<open>t\<close> the text \<^verbatim>\<open>String(message.type)\<close>.
\<close>

datatype CollabMessage =
    CallMessage TransactionID string js_value
  | ReturnMessage TransactionID js_value js_value
  | OtherMessage string

text \<open>
  What invoking a method does: it returns a value that is not a promise, it returns a
  promise (named by a handle; when and how that promise settles is up to the method), or
  it throws. \<^verbatim>\<open>Methods\<close> is the object handed to \<^verbatim>\<open>collab\<close>: a lookup from property name
  to function, \<open>None\<close> where \<^verbatim>\<open>name in methods\<close> is false.
\<close>

datatype outcome = Returns js_value | ReturnsPromise nat | Throws js_value

type_synonym Methods = "string \<rightharpoonup> (js_value list \<Rightarrow> outcome)"

text \<open>How a promise that a method returned settles.\<close>

datatype settlement = Fulfils js_value | Rejects js_value

text \<open>
  The state one call of \<^verbatim>\<open>collab\<close> closes over: \<^verbatim>\<open>options.name\<close>, the \<^verbatim>\<open>transactions\<close>
  map and \<^verbatim>\<open>nextTransactionIndex\<close> (lines 64-65), together with what its effects act on:
  the store of promises made by proxy calls, the messages handed to
  \<^verbatim>\<open>options.toSendMessage\<close> (oldest first), the lines written with \<^verbatim>\<open>console.error\<close>, and the
  reactions registered by \<^verbatim>\<open>value.then(...).catch(...)\<close> (lines 93-109) on promises that
  methods returned, each with the transaction it will answer.

  \<^verbatim>\<open>nextTransactionIndex\<close> is a JavaScript number that starts at 0 and only ever changes by
  \<^verbatim>\<open>++\<close> (line 176), so its value is a natural number; see \<open>increment\<close> for what \<^verbatim>\<open>++\<close> does
  to it. \<^verbatim>\<open>options.toSendMessage\<close> is taken not to throw.
\<close>

record engine =
  options_name :: string
  transactions :: "TransactionID \<rightharpoonup> Transaction"
  nextTransactionIndex :: nat
  promises :: "promise_state list"
  sent :: "CollabMessage list"
  console :: "string list"
  reactions :: "(nat \<times> TransactionID) list"

section \<open>Rendering the transaction counter\<close>

text \<open>
  The template literal on line 176 renders the counter in decimal, without leading zeros.
\<close>

definition digit_char :: "nat \<Rightarrow> char" where
  "digit_char d = char_of (48 + d)"

function string_of_nat :: "nat \<Rightarrow> string" where
  "string_of_nat n =
     (if n < 10 then [digit_char n] else string_of_nat (n div 10) @ [digit_char (n mod 10)])"
  by pat_completeness auto
termination
  by (relation "measure id") auto

declare string_of_nat.simps [simp del]

text \<open>Reading a decimal numeral back; it serves to show that the rendering is injective.\<close>

definition nat_of_string :: "string \<Rightarrow> nat" where
  "nat_of_string s = foldl (\<lambda>a c. 10 * a + (of_char c - 48)) 0 s"

section \<open>The message handler (lines 68-153)\<close>

definition toSendMessage :: "engine \<Rightarrow> CollabMessage \<Rightarrow> engine" where
  "toSendMessage e m = e\<lparr>sent := sent e @ [m]\<rparr>"

definition console_error :: "engine \<Rightarrow> string \<Rightarrow> engine" where
  "console_error e line = e\<lparr>console := console e @ [line]\<rparr>"

text \<open>\<^verbatim>\<open>ex instanceof Error ? ex.message : ex\<close> (lines 107 and 127).\<close>

definition normalize_ex :: "js_value \<Rightarrow> js_value" where
  "normalize_ex ex = (case ex of ErrorObj m \<Rightarrow> Str m | _ \<Rightarrow> ex)"

text \<open>
  The spread \<^verbatim>\<open>...message.args\<close>: an array gives its elements, a string its characters,
  and any other value of the model is not iterable.
\<close>

definition spread :: "js_value \<Rightarrow> js_value list option" where
  "spread args =
     (case args of
        Arr xs \<Rightarrow> Some xs
      | Str s \<Rightarrow> Some (map (\<lambda>c. Str [c]) s)
      | _ \<Rightarrow> None)"

text \<open>
  The messages of the two \<^verbatim>\<open>TypeError\<close>s the call on line 88 can raise by itself. Their
  wording belongs to the JavaScript engine; nothing below depends on it.
\<close>

definition not_iterable_message :: string where
  "not_iterable_message = ''message.args is not iterable''"

definition not_a_function_message :: string where
  "not_a_function_message = ''methods[message.func] is not a function''"

text \<open>
  Line 88, \<^verbatim>\<open>methods[message.func](...message.args)\<close>: the callee is read first (a missing
  property reads as \<^verbatim>\<open>undefined\<close> without a fault), then the arguments are spread, then
  the call is made, which faults when the callee is not a function.
\<close>

definition invoke :: "Methods \<Rightarrow> string \<Rightarrow> js_value \<Rightarrow> outcome" where
  "invoke methods func args =
     (case spread args of
        None \<Rightarrow> Throws (ErrorObj not_iterable_message)
      | Some xs \<Rightarrow>
          (case methods func of
             None \<Rightarrow> Throws (ErrorObj not_a_function_message)
           | Some f \<Rightarrow> f xs))"

text \<open>
  The \<^verbatim>\<open>"call"\<close> branch, lines 73-129. The \<^verbatim>\<open>if\<close> on line 74 has no \<^verbatim>\<open>return\<close> and no
  \<^verbatim>\<open>else\<close>: after it, control reaches the \<^verbatim>\<open>try\<close> on line 86 in either case.
\<close>

definition unknown_method_message :: "string \<Rightarrow> string" where
  "unknown_method_message func = ''Unknown method \"'' @ func @ ''\"!''"

definition handle_call :: "Methods \<Rightarrow> engine \<Rightarrow> TransactionID \<Rightarrow> string \<Rightarrow> js_value \<Rightarrow> engine" where
  "handle_call methods e tid func args =
     (let e1 =
        (if methods func = None
         then toSendMessage
                (console_error e (''Message to call unknown method \"'' @ func @ ''\" arrived!''))
                (ReturnMessage tid Undefined (ErrorObj (unknown_method_message func)))
         else e)
      in case invoke methods func args of
           ReturnsPromise h \<Rightarrow> e1\<lparr>reactions := reactions e1 @ [(h, tid)]\<rparr>
         | Returns v \<Rightarrow> toSendMessage e1 (ReturnMessage tid v Undefined)
         | Throws ex \<Rightarrow> toSendMessage e1 (ReturnMessage tid Undefined (normalize_ex ex)))"

text \<open>
  The reactions of lines 94-109 run when the promise settles: \<^verbatim>\<open>then\<close> sends the value,
  \<^verbatim>\<open>catch\<close> sends the normalised reason. A reaction runs once, so the reactions on the
  settled promise leave the list; they run in the order they were registered.
\<close>

definition settled_message :: "settlement \<Rightarrow> TransactionID \<Rightarrow> CollabMessage" where
  "settled_message s tid =
     (case s of
        Fulfils newValue \<Rightarrow> ReturnMessage tid newValue Undefined
      | Rejects ex \<Rightarrow> ReturnMessage tid Undefined (normalize_ex ex))"

definition method_promise_settled :: "nat \<Rightarrow> settlement \<Rightarrow> engine \<Rightarrow> engine" where
  "method_promise_settled h s e =
     (e\<lparr>reactions := filter (\<lambda>r. fst r \<noteq> h) (reactions e),
        sent := sent e @ map (\<lambda>r. settled_message s (snd r)) (filter (\<lambda>r. fst r = h) (reactions e))\<rparr>)"

text \<open>
  The \<^verbatim>\<open>resolve\<close> and \<^verbatim>\<open>reject\<close> functions of a promise: they settle it when it is pending
  and do nothing when it is settled already.
\<close>

definition settle :: "nat \<Rightarrow> promise_state \<Rightarrow> promise_state list \<Rightarrow> promise_state list" where
  "settle p st ps = (if p < length ps \<and> ps ! p = Pending then ps[p := st] else ps)"

definition resolvePromise :: "Transaction \<Rightarrow> js_value \<Rightarrow> engine \<Rightarrow> engine" where
  "resolvePromise t v e = e\<lparr>promises := settle (promise t) (Fulfilled v) (promises e)\<rparr>"

definition rejectPromise :: "Transaction \<Rightarrow> js_value \<Rightarrow> engine \<Rightarrow> engine" where
  "rejectPromise t reason e = e\<lparr>promises := settle (promise t) (Rejected reason) (promises e)\<rparr>"

text \<open>
  The \<^verbatim>\<open>"return"\<close> branch, lines 133-147. The second component is the fault that leaves
  the handler, if any; the state beside it is the state at the \<^verbatim>\<open>throw\<close>.
\<close>

definition unknown_transaction_message :: "TransactionID \<Rightarrow> string" where
  "unknown_transaction_message tid = ''Return value for unknown transaction ID '' @ tid @ '' arrived!''"

definition handle_return :: "engine \<Rightarrow> TransactionID \<Rightarrow> js_value \<Rightarrow> js_value \<Rightarrow> engine \<times> js_value option" where
  "handle_return e tid v ex =
     (case transactions e tid of
        None \<Rightarrow> (e, Some (ErrorObj (unknown_transaction_message tid)))
      | Some transaction \<Rightarrow>
          (let e1 = (if ex = Undefined \<or> ex = Null
                     then resolvePromise transaction v e
                     else rejectPromise transaction ex e)
           in (e1\<lparr>transactions := (transactions e1)(tid := None)\<rparr>, None)))"

definition unknown_type_message :: "string \<Rightarrow> string" where
  "unknown_type_message t = ''Unknown message with type '' @ t @ '' arrived!''"

text \<open>The handler passed to \<^verbatim>\<open>options.toHandleMessage\<close> on line 68.\<close>

definition handler :: "Methods \<Rightarrow> engine \<Rightarrow> CollabMessage \<Rightarrow> engine \<times> js_value option" where
  "handler methods e message =
     (case message of
        CallMessage tid func args \<Rightarrow> (handle_call methods e tid func args, None)
      | ReturnMessage tid v ex \<Rightarrow> handle_return e tid v ex
      | OtherMessage t \<Rightarrow> (e, Some (ErrorObj (unknown_type_message t))))"

section \<open>The proxy (lines 156-193)\<close>

text \<open>
  The function the \<^verbatim>\<open>get\<close> trap returns for a string property, applied to \<open>args\<close>: it makes
  the promise, registers the transaction and sends the call. The result is the new state
  and the reference of the promise handed to the caller.
\<close>

text \<open>
  \<^verbatim>\<open>nextTransactionIndex++\<close> on line 176. The counter is a double: up to \<open>2^53\<close> every
  natural number is a double and \<^verbatim>\<open>++\<close> adds one; at \<open>2^53\<close> the sum \<open>2^53 + 1\<close> is not a
  double and rounds back to \<open>2^53\<close>, so the counter stays there. Counting up from 0 it
  never gets beyond \<open>2^53\<close>, and the model leaves larger values as they are. Up to that
  value the template literal renders the counter with all its decimal digits.
\<close>

definition counter_limit :: nat where
  "counter_limit = 2 ^ 53"

definition increment :: "nat \<Rightarrow> nat" where
  "increment n = (if n < counter_limit then n + 1 else n)"

definition mint :: "engine \<Rightarrow> TransactionID" where
  "mint e = options_name e @ '':'' @ string_of_nat (nextTransactionIndex e)"

definition proxy_call :: "engine \<Rightarrow> string \<Rightarrow> js_value list \<Rightarrow> engine \<times> nat" where
  "proxy_call e prop args =
     (let p = length (promises e);
          transaction = \<lparr>transactionID = mint e, promise = p\<rparr>;
          e1 = e\<lparr>promises := promises e @ [Pending],
                 nextTransactionIndex := increment (nextTransactionIndex e),
                 transactions := (transactions e)(transactionID transaction \<mapsto> transaction)\<rparr>
      in (toSendMessage e1 (CallMessage (transactionID transaction) prop (Arr args)), p))"

text \<open>The closure state a call of \<^verbatim>\<open>collab\<close> starts from (lines 64-65).\<close>

definition new_engine :: "string \<Rightarrow> engine" where
  "new_engine nm =
     \<lparr>options_name = nm, transactions = Map.empty, nextTransactionIndex = 0,
      promises = [], sent = [], console = [], reactions = []\<rparr>"

text \<open>
  \<^verbatim>\<open>CollaborationOptions\<close>. \<^verbatim>\<open>toSendMessage\<close> is the \<open>sent\<close> log of the engine.
  \<^verbatim>\<open>toHandleMessage\<close> installs the handler in the host environment, whose state has type
  \<open>'h\<close>, and returns a cleanup function, an action on that state, or nothing
  (\<^verbatim>\<open>CollabCleanupFunction | void\<close>, line 43): \<open>None\<close> is \<^verbatim>\<open>undefined\<close>.
\<close>

record 'h CollaborationOptions =
  name :: string
  toHandleMessage :: "'h \<Rightarrow> 'h \<times> ('h \<Rightarrow> 'h) option"

text \<open>
  \<^verbatim>\<open>collab\<close>: the fresh closure state, \<^verbatim>\<open>cleanupFunction\<close> as bound on line 68, and the
  host state after the handler was installed. The proxy it returns is \<open>proxy_get\<close> and
  \<open>proxy_method_call\<close> below, over these.
\<close>

definition collab :: "'h CollaborationOptions \<Rightarrow> 'h \<Rightarrow> engine \<times> ('h \<Rightarrow> 'h) option \<times> 'h" where
  "collab options host =
     (case toHandleMessage options host of
        (host1, cleanupFunction) \<Rightarrow> (new_engine (name options), cleanupFunction, host1))"

text \<open>
  A property key is a string or a symbol (\<open>SymbolKey d\<close>, with \<open>d\<close> the text
  \<^verbatim>\<open>String(prop)\<close>). What the \<^verbatim>\<open>get\<close> trap (lines 160-191) hands out is \<^verbatim>\<open>undefined\<close>, the
  cleanup function, or the function that remotes calls of that name; \<open>Inl\<close> is the fault
  it throws.
\<close>

datatype property_key = StringKey string | SymbolKey string

datatype 'h property = UndefinedProperty | CleanupFunction "'h \<Rightarrow> 'h" | RemoteFunction string

definition proxy_get :: "('h \<Rightarrow> 'h) option \<Rightarrow> property_key \<Rightarrow> js_value + 'h property" where
  "proxy_get cleanupFunction prop =
     (if prop = StringKey ''cleanupProxy''
      then (case cleanupFunction of None \<Rightarrow> Inr UndefinedProperty | Some f \<Rightarrow> Inr (CleanupFunction f))
      else (case prop of
              SymbolKey d \<Rightarrow> Inl (ErrorObj (''Symbol property \"'' @ d @ ''\" is not supported.''))
            | StringKey p \<Rightarrow> Inr (RemoteFunction p)))"

text \<open>
  The expression \<^verbatim>\<open>proxy[prop](...args)\<close>: the property is read through the trap and the
  result is called. Calling \<^verbatim>\<open>undefined\<close> is a \<^verbatim>\<open>TypeError\<close> at the call site (its wording
  belongs to the JavaScript engine); the only key that can read as \<^verbatim>\<open>undefined\<close> is
  \<^verbatim>\<open>cleanupProxy\<close>.
\<close>

definition not_callable_message :: string where
  "not_callable_message = ''proxy.cleanupProxy is not a function''"

definition proxy_method_call ::
  "('h \<Rightarrow> 'h) option \<Rightarrow> property_key \<Rightarrow> js_value list \<Rightarrow> engine \<Rightarrow> 'h \<Rightarrow> (engine \<times> 'h) \<times> outcome" where
  "proxy_method_call cleanupFunction prop args e host =
     (case proxy_get cleanupFunction prop of
        Inl ex \<Rightarrow> ((e, host), Throws ex)
      | Inr UndefinedProperty \<Rightarrow> ((e, host), Throws (ErrorObj not_callable_message))
      | Inr (CleanupFunction f) \<Rightarrow> ((e, f host), Returns Undefined)
      | Inr (RemoteFunction p) \<Rightarrow>
          (case proxy_call e p args of (e1, pr) \<Rightarrow> ((e1, host), ReturnsPromise pr)))"

section \<open>The adapters of figma.ts\<close>

text \<open>
  The host state the two adapters act on: whether a handler is installed in the window's
  \<^verbatim>\<open>onmessage\<close> and in \<^verbatim>\<open>figma.ui.onmessage\<close>. Both adapters install the handler and return
  a cleanup function that clears the slot again.
\<close>

record figma_host =
  window_onmessage :: bool
  figma_ui_onmessage :: bool

definition FigmaPluginUI :: "figma_host CollaborationOptions" where
  "FigmaPluginUI =
     \<lparr>name = ''UI'',
      toHandleMessage = (\<lambda>h. (h\<lparr>window_onmessage := True\<rparr>, Some (\<lambda>h. h\<lparr>window_onmessage := False\<rparr>)))\<rparr>"

definition FigmaPlugin :: "figma_host CollaborationOptions" where
  "FigmaPlugin =
     \<lparr>name = ''Plugin'',
      toHandleMessage = (\<lambda>h. (h\<lparr>figma_ui_onmessage := True\<rparr>, Some (\<lambda>h. h\<lparr>figma_ui_onmessage := False\<rparr>)))\<rparr>"

section \<open>Runs of one engine\<close>

text \<open>
  What can happen to an engine: its proxy is called, its handler receives a message, or
  a promise that one of its methods returned settles. A fault the handler raises goes to
  whoever delivered the message; the engine goes on from the state at the
  \<^verbatim>\<open>throw\<close>.
\<close>

datatype event =
    ProxyCall string "js_value list"
  | Receive CollabMessage
  | MethodPromiseSettled nat settlement

definition step :: "Methods \<Rightarrow> engine \<Rightarrow> event \<Rightarrow> engine" where
  "step methods e ev =
     (case ev of
        ProxyCall p args \<Rightarrow> fst (proxy_call e p args)
      | Receive message \<Rightarrow> fst (handler methods e message)
      | MethodPromiseSettled h s \<Rightarrow> method_promise_settled h s e)"

definition run :: "Methods \<Rightarrow> engine \<Rightarrow> event list \<Rightarrow> engine" where
  "run methods e evs = foldl (step methods) e evs"

text \<open>The number of proxy calls among the events of a run.\<close>

definition is_proxy_call :: "event \<Rightarrow> bool" where
  "is_proxy_call ev = (case ev of ProxyCall p args \<Rightarrow> True | _ \<Rightarrow> False)"

definition proxy_calls :: "event list \<Rightarrow> nat" where
  "proxy_calls evs = length (filter is_proxy_call evs)"

text \<open>The transaction ids of the call envelopes among \<open>ms\<close>, in order: the ids minted.\<close>

definition call_ids :: "CollabMessage list \<Rightarrow> TransactionID list" where
  "call_ids ms = concat (map (\<lambda>m. case m of CallMessage tid func args \<Rightarrow> [tid] | _ \<Rightarrow> []) ms)"

section \<open>The invariants of a run\<close>

text \<open>
  Of the registry, in every run: every registered transaction sits under its own id and
  holds a pending promise of the store, and no two registered transactions hold the same
  promise. Of the ids, as long as the counter has not stopped: the ids sent so far are
  distinct, and they and the registered ids were minted at smaller counter values.
  \<open>id_of e k\<close> is the id the engine mints at counter value \<open>k\<close>.
\<close>

definition id_of :: "engine \<Rightarrow> nat \<Rightarrow> TransactionID" where
  "id_of e k = options_name e @ '':'' @ string_of_nat k"

definition registry_ok :: "engine \<Rightarrow> bool" where
  "registry_ok e \<longleftrightarrow>
     (\<forall>tid t. transactions e tid = Some t \<longrightarrow>
        transactionID t = tid \<and> promise t < length (promises e) \<and> promises e ! promise t = Pending)"

definition promises_unshared :: "engine \<Rightarrow> bool" where
  "promises_unshared e \<longleftrightarrow>
     (\<forall>tid tid' t t'. transactions e tid = Some t \<longrightarrow> transactions e tid' = Some t' \<longrightarrow>
        promise t = promise t' \<longrightarrow> tid = tid')"

definition wf :: "engine \<Rightarrow> bool" where
  "wf e \<longleftrightarrow> registry_ok e \<and> promises_unshared e"

definition minted_ok :: "engine \<Rightarrow> bool" where
  "minted_ok e \<longleftrightarrow>
     distinct (call_ids (sent e))
     \<and> (\<forall>tid \<in> set (call_ids (sent e)). \<exists>k<nextTransactionIndex e. tid = id_of e k)
     \<and> (\<forall>tid t. transactions e tid = Some t \<longrightarrow> (\<exists>k<nextTransactionIndex e. tid = id_of e k))"

section \<open>Predicates on values\<close>

definition is_message_string :: "js_value \<Rightarrow> bool" where
  "is_message_string x = (case x of Str s \<Rightarrow> True | _ \<Rightarrow> False)"

definition is_Error :: "js_value \<Rightarrow> bool" where
  "is_Error x = (case x of ErrorObj m \<Rightarrow> True | _ \<Rightarrow> False)"

section \<open>Example tables, adapters and states\<close>

text \<open>
  The table \<^verbatim>\<open>{ add(x, y) { return x + y } }\<close> of the specification's example, on two
  integer arguments; other argument lists are outside the example and are given
  \<^verbatim>\<open>undefined\<close> here.
\<close>

definition add_impl :: "js_value list \<Rightarrow> outcome" where
  "add_impl xs = (case xs of [Num x, Num y] \<Rightarrow> Returns (Num (x + y)) | _ \<Rightarrow> Returns Undefined)"

definition add_methods :: Methods where
  "add_methods = [''add'' \<mapsto> add_impl]"

text \<open>\<^verbatim>\<open>{ slow: async () => { await delay(10); return "done" } }\<close>: the call returns promise 0.\<close>

definition slow_methods :: Methods where
  "slow_methods = [''slow'' \<mapsto> (\<lambda>xs. ReturnsPromise 0)]"

text \<open>\<^verbatim>\<open>{ fail() { throw 42 } }\<close>, \<^verbatim>\<open>{ fail() { throw new Error("disk full") } }\<close> and
  \<^verbatim>\<open>{ boom() { throw undefined } }\<close>.\<close>

definition throw42_methods :: Methods where
  "throw42_methods = [''fail'' \<mapsto> (\<lambda>xs. Throws (Num 42))]"

definition throw_error_methods :: Methods where
  "throw_error_methods = [''fail'' \<mapsto> (\<lambda>xs. Throws (ErrorObj ''disk full''))]"

definition boom_methods :: Methods where
  "boom_methods = [''boom'' \<mapsto> (\<lambda>xs. Throws Undefined)]"

text \<open>An adapter that installs the handler and returns nothing, as line 43 allows.\<close>

definition no_cleanup_options :: "figma_host CollaborationOptions" where
  "no_cleanup_options =
     \<lparr>name = ''UI'', toHandleMessage = (\<lambda>h. (h\<lparr>window_onmessage := True\<rparr>, None))\<rparr>"

definition idle_host :: figma_host where
  "idle_host = \<lparr>window_onmessage = False, figma_ui_onmessage = False\<rparr>"

text \<open>
  Tables whose one method is named \<^verbatim>\<open>cleanupProxy\<close>: \<^verbatim>\<open>{ cleanupProxy() { return 1 } }\<close> and
  an \<^verbatim>\<open>async\<close> one, whose call returns promise 0. And what \<^verbatim>\<open>collab\<close> binds and leaves behind
  when called with each of the two adapters on an idle host.
\<close>

definition reserved_sync_methods :: Methods where
  "reserved_sync_methods = [''cleanupProxy'' \<mapsto> (\<lambda>xs. Returns (Num 1))]"

definition reserved_async_methods :: Methods where
  "reserved_async_methods = [''cleanupProxy'' \<mapsto> (\<lambda>xs. ReturnsPromise 0)]"

definition ui_cleanup :: "(figma_host \<Rightarrow> figma_host) option" where
  "ui_cleanup = fst (snd (collab FigmaPluginUI idle_host))"

definition ui_host :: figma_host where
  "ui_host = snd (snd (collab FigmaPluginUI idle_host))"

definition plugin_cleanup :: "(figma_host \<Rightarrow> figma_host) option" where
  "plugin_cleanup = fst (snd (collab FigmaPlugin idle_host))"

definition plugin_host :: figma_host where
  "plugin_host = snd (snd (collab FigmaPlugin idle_host))"

text \<open>The engine \<^verbatim>\<open>UI\<close> after its first proxy call, \<^verbatim>\<open>proxy.getColors()\<close>, and two calls in a row.\<close>

definition pending_engine :: engine where
  "pending_engine = fst (proxy_call (new_engine ''UI'') ''getColors'' [])"

definition two_calls :: "event list" where
  "two_calls = [ProxyCall ''getColors'' [], ProxyCall ''setColor'' [Str ''#c0c0c0'']]"

text \<open>The run in which the proxy is called \<open>n\<close> times and nothing else happens.\<close>

definition calls_only :: "nat \<Rightarrow> event list" where
  "calls_only n = replicate n (ProxyCall ''getColors'' [])"

section \<open>Basic facts\<close>

lemma string_of_nat_0: "string_of_nat 0 = ''0''"
  by code_simp

lemma string_of_nat_1: "string_of_nat (Suc 0) = ''1''"
  by code_simp

lemma increment_below: "n < counter_limit \<Longrightarrow> increment n = Suc n"
  by (simp add: increment_def)

lemma increment_limit: "increment counter_limit = counter_limit"
  by (simp add: increment_def)

lemma small_below_limit: "0 < counter_limit" "Suc 0 < counter_limit" "2 < counter_limit"
  by (simp_all add: counter_limit_def)

lemma mint_new_engine: "mint (new_engine nm) = nm @ '':0''"
  by (simp add: mint_def new_engine_def string_of_nat_0)

lemma invoke_found: "methods f = Some impl \<Longrightarrow> invoke methods f (Arr args) = impl args"
  by (simp add: invoke_def spread_def)

lemma proxy_call_fst:
  "fst (proxy_call e p args)
     = e\<lparr>promises := promises e @ [Pending],
          nextTransactionIndex := increment (nextTransactionIndex e),
          transactions := (transactions e)(mint e \<mapsto> \<lparr>transactionID = mint e, promise = length (promises e)\<rparr>),
          sent := sent e @ [CallMessage (mint e) p (Arr args)]\<rparr>"
  by (simp add: proxy_call_def Let_def toSendMessage_def)

lemma proxy_method_call_remote:
  "f \<noteq> ''cleanupProxy'' \<Longrightarrow>
   proxy_method_call cleanupFunction (StringKey f) args a host
     = ((fst (proxy_call a f args), host), ReturnsPromise (length (promises a)))"
  by (simp add: proxy_method_call_def proxy_get_def proxy_call_def Let_def)

lemma handle_return_found:
  "transactions e tid = Some t \<Longrightarrow>
   handler methods e (ReturnMessage tid v ex)
     = (e\<lparr>promises := settle (promise t) (if ex = Undefined \<or> ex = Null then Fulfilled v else Rejected ex)
                        (promises e),
          transactions := (transactions e)(tid := None)\<rparr>, None)"
  by (simp add: handler_def handle_return_def resolvePromise_def rejectPromise_def)

lemma pending_engine_eq:
  "pending_engine = \<lparr>options_name = ''UI'', transactions = [''UI:0'' \<mapsto> \<lparr>transactionID = ''UI:0'', promise = 0\<rparr>],
     nextTransactionIndex = 1, promises = [Pending],
     sent = [CallMessage ''UI:0'' ''getColors'' (Arr [])], console = [], reactions = []\<rparr>"
  by (simp add: pending_engine_def proxy_call_def Let_def mint_new_engine toSendMessage_def)
     (simp add: new_engine_def increment_below small_below_limit)

lemma run_two_calls:
  "run methods (new_engine ''UI'') two_calls =
     \<lparr>options_name = ''UI'',
      transactions = [''UI:0'' \<mapsto> \<lparr>transactionID = ''UI:0'', promise = 0\<rparr>,
                      ''UI:1'' \<mapsto> \<lparr>transactionID = ''UI:1'', promise = 1\<rparr>],
      nextTransactionIndex = 2, promises = [Pending, Pending],
      sent = [CallMessage ''UI:0'' ''getColors'' (Arr []),
              CallMessage ''UI:1'' ''setColor'' (Arr [Str ''#c0c0c0''])],
      console = [], reactions = []\<rparr>"
  by (simp add: run_def two_calls_def step_def proxy_call_fst mint_def new_engine_def
      string_of_nat_0 string_of_nat_1 increment_below small_below_limit)

section \<open>The decimal rendering is injective\<close>

lemma of_char_digit: "d < 10 \<Longrightarrow> of_char (digit_char d) = 48 + d"
  by (simp add: digit_char_def)

lemma nat_of_string_snoc: "nat_of_string (s @ [c]) = 10 * nat_of_string s + (of_char c - 48)"
  by (simp add: nat_of_string_def)

lemma nat_of_string_of_nat: "nat_of_string (string_of_nat n) = n"
proof (induction n rule: string_of_nat.induct)
  case (1 n)
  show ?case
  proof (cases "n < 10")
    case True
    then show ?thesis
      by (simp add: string_of_nat.simps [of n] nat_of_string_def of_char_digit)
  next
    case False
    with 1 show ?thesis
      by (simp add: string_of_nat.simps [of n] nat_of_string_snoc of_char_digit)
  qed
qed

lemma string_of_nat_inj: "string_of_nat m = string_of_nat n \<Longrightarrow> m = n"
  by (metis nat_of_string_of_nat)

lemma id_of_inj: "id_of e m = id_of e n \<Longrightarrow> m = n"
  by (simp add: id_of_def string_of_nat_inj)

lemma mint_id_of: "mint e = id_of e (nextTransactionIndex e)"
  by (simp add: mint_def id_of_def)

section \<open>The invariants hold\<close>

lemma call_ids_append: "call_ids (xs @ ys) = call_ids xs @ call_ids ys"
  by (simp add: call_ids_def)

lemma call_ids_returns: "call_ids (map (\<lambda>r. settled_message s (g r)) rs) = []"
  by (induction rs) (simp_all add: call_ids_def settled_message_def split: settlement.splits)

lemma call_ids_simps [simp]:
  "call_ids [] = []"
  "call_ids (CallMessage tid f a # ms) = tid # call_ids ms"
  "call_ids (ReturnMessage tid v x # ms) = call_ids ms"
  "call_ids (OtherMessage t # ms) = call_ids ms"
  by (simp_all add: call_ids_def)

lemma handle_call_frame:
  "transactions (handle_call methods e tid func args) = transactions e"
  "promises (handle_call methods e tid func args) = promises e"
  "nextTransactionIndex (handle_call methods e tid func args) = nextTransactionIndex e"
  "options_name (handle_call methods e tid func args) = options_name e"
  "call_ids (sent (handle_call methods e tid func args)) = call_ids (sent e)"
  by (simp_all add: handle_call_def Let_def toSendMessage_def console_error_def call_ids_append
      split: outcome.splits)

lemma handle_return_eq:
  "fst (handle_return e tid v ex) =
     (case transactions e tid of
        None \<Rightarrow> e
      | Some t \<Rightarrow>
          e\<lparr>promises := settle (promise t)
                            (if ex = Undefined \<or> ex = Null then Fulfilled v else Rejected ex) (promises e),
            transactions := (transactions e)(tid := None)\<rparr>)"
  by (simp add: handle_return_def resolvePromise_def rejectPromise_def split: option.splits)

lemma run_append: "run methods e (xs @ ys) = run methods (run methods e xs) ys"
  by (simp add: run_def)

lemma run_replicate_Suc:
  "run methods e (replicate (Suc n) ev) = step methods (run methods e (replicate n ev)) ev"
proof -
  have "replicate (Suc n) ev = replicate n ev @ [ev]" by (simp add: replicate_append_same)
  then have "run methods e (replicate (Suc n) ev) = run methods (run methods e (replicate n ev)) [ev]"
    by (simp only: run_append)
  then show ?thesis by (simp add: run_def)
qed

lemma name_step: "options_name (step methods e ev) = options_name e"
  by (cases ev)
     (auto simp: step_def handler_def proxy_call_def Let_def toSendMessage_def handle_call_frame
        handle_return_def resolvePromise_def rejectPromise_def method_promise_settled_def
        split: CollabMessage.splits option.splits)

lemma name_run: "options_name (run methods e evs) = options_name e"
  unfolding run_def by (induction evs arbitrary: e) (simp_all add: name_step)


subsection \<open>The registry, in every run\<close>

lemma wf_new_engine: "wf (new_engine nm)"
  by (simp add: wf_def registry_ok_def promises_unshared_def new_engine_def)

lemma wf_frame:
  assumes "wf e" and "transactions e' = transactions e" and "promises e' = promises e"
  shows "wf e'"
  using assms by (simp add: wf_def registry_ok_def promises_unshared_def)

lemma wf_handle_call: "wf e \<Longrightarrow> wf (handle_call methods e tid func args)"
  by (rule wf_frame) (simp_all add: handle_call_frame)

lemma wf_method_promise_settled: "wf e \<Longrightarrow> wf (method_promise_settled h s e)"
  by (rule wf_frame) (simp_all add: method_promise_settled_def)

lemma wf_handle_return:
  assumes "wf e"
  shows "wf (fst (handle_return e tid v ex))"
proof (cases "transactions e tid")
  case None
  with assms show ?thesis by (simp add: handle_return_eq)
next
  case (Some t)
  define st where "st = (if ex = Undefined \<or> ex = Null then Fulfilled v else Rejected ex)"
  define e1 where "e1 = e\<lparr>promises := settle (promise t) st (promises e),
      transactions := (transactions e)(tid := None)\<rparr>"
  have e1: "fst (handle_return e tid v ex) = e1"
    using Some by (simp add: handle_return_eq st_def e1_def)
  have reg: "registry_ok e" and uns: "promises_unshared e"
    using assms by (simp_all add: wf_def)
  have other: "promise t' \<noteq> promise t" if "transactions e tid' = Some t'" "tid' \<noteq> tid" for tid' t'
    using uns Some that unfolding promises_unshared_def by blast
  have "registry_ok e1"
    unfolding registry_ok_def
  proof (intro allI impI)
    fix tid' t'
    assume "transactions e1 tid' = Some t'"
    then have ne: "tid' \<noteq> tid" and old: "transactions e tid' = Some t'"
      by (auto simp: e1_def split: if_splits)
    from reg old have "transactionID t' = tid'" "promise t' < length (promises e)"
      "promises e ! promise t' = Pending"
      by (auto simp: registry_ok_def)
    moreover have "promise t' \<noteq> promise t" using other old ne by blast
    ultimately show "transactionID t' = tid' \<and> promise t' < length (promises e1)
        \<and> promises e1 ! promise t' = Pending"
      by (simp add: e1_def settle_def)
  qed
  moreover have "promises_unshared e1"
    using uns unfolding promises_unshared_def e1_def by (auto split: if_splits)
  ultimately show ?thesis by (simp add: wf_def e1)
qed

lemma wf_proxy_call:
  assumes "wf e"
  shows "wf (fst (proxy_call e pname args))"
proof -
  define e1 where "e1 = fst (proxy_call e pname args)"
  note e1 = e1_def [unfolded proxy_call_fst]
  have reg: "registry_ok e" and uns: "promises_unshared e"
    using assms by (simp_all add: wf_def)
  have lt: "promise u < length (promises e)" if "transactions e x = Some u" for x u
    using reg that by (auto simp: registry_ok_def)
  have "registry_ok e1"
    unfolding registry_ok_def
  proof (intro allI impI)
    fix tid t
    assume a: "transactions e1 tid = Some t"
    show "transactionID t = tid \<and> promise t < length (promises e1)
        \<and> promises e1 ! promise t = Pending"
    proof (cases "tid = mint e")
      case True
      with a have "t = \<lparr>transactionID = mint e, promise = length (promises e)\<rparr>" by (simp add: e1)
      then show ?thesis using True by (simp add: e1)
    next
      case False
      with a have old: "transactions e tid = Some t" by (simp add: e1)
      with reg have "transactionID t = tid" "promise t < length (promises e)"
        "promises e ! promise t = Pending"
        by (auto simp: registry_ok_def)
      then show ?thesis by (simp add: e1 nth_append)
    qed
  qed
  moreover have "promises_unshared e1"
    unfolding promises_unshared_def
  proof (intro allI impI)
    fix tid tid' t t'
    assume a: "transactions e1 tid = Some t" "transactions e1 tid' = Some t'" "promise t = promise t'"
    show "tid = tid'"
    proof (cases "tid = mint e"; cases "tid' = mint e")
      assume "tid = mint e" "tid' = mint e" then show ?thesis by simp
    next
      assume "tid = mint e" "tid' \<noteq> mint e"
      with a lt [of tid' t'] show ?thesis by (auto simp: e1)
    next
      assume "tid \<noteq> mint e" "tid' = mint e"
      with a lt [of tid t] show ?thesis by (auto simp: e1)
    next
      assume "tid \<noteq> mint e" "tid' \<noteq> mint e"
      with a uns show ?thesis unfolding promises_unshared_def by (auto simp: e1)
    qed
  qed
  ultimately show ?thesis by (simp add: wf_def e1_def)
qed

lemma wf_step: "wf e \<Longrightarrow> wf (step methods e ev)"
  by (cases ev)
     (auto simp: step_def handler_def wf_proxy_call wf_handle_call wf_handle_return
        wf_method_promise_settled split: CollabMessage.splits)

lemma wf_run: "wf e \<Longrightarrow> wf (run methods e evs)"
  unfolding run_def by (induction evs arbitrary: e) (simp_all add: wf_step)

subsection \<open>The ids, while the counter counts\<close>

lemma minted_new_engine: "minted_ok (new_engine nm)"
  by (simp add: minted_ok_def new_engine_def)

lemma minted_shrink:
  assumes "minted_ok e" and "\<And>tid t. transactions e' tid = Some t \<Longrightarrow> transactions e tid = Some t"
    and "nextTransactionIndex e' = nextTransactionIndex e" and "options_name e' = options_name e"
    and "call_ids (sent e') = call_ids (sent e)"
  shows "minted_ok e'"
  using assms unfolding minted_ok_def id_of_def by auto

lemma minted_handle_call: "minted_ok e \<Longrightarrow> minted_ok (handle_call methods e tid func args)"
  by (rule minted_shrink) (simp_all add: handle_call_frame)

lemma minted_method_promise_settled: "minted_ok e \<Longrightarrow> minted_ok (method_promise_settled h s e)"
  by (rule minted_shrink) (simp_all add: method_promise_settled_def call_ids_append call_ids_returns)

lemma minted_handle_return:
  assumes "minted_ok e"
  shows "minted_ok (fst (handle_return e tid v ex))"
  by (rule minted_shrink [OF assms]) (auto simp: handle_return_eq split: option.splits if_splits)

lemma minted_fresh:
  assumes "minted_ok e"
  shows "mint e \<notin> set (call_ids (sent e))" and "transactions e (mint e) = None"
proof -
  let ?n = "nextTransactionIndex e"
  show "mint e \<notin> set (call_ids (sent e))"
  proof
    assume "mint e \<in> set (call_ids (sent e))"
    with assms obtain k where "k < ?n" "mint e = id_of e k" by (auto simp: minted_ok_def)
    then show False using id_of_inj [of e k ?n] by (auto simp: mint_id_of)
  qed
  show "transactions e (mint e) = None"
  proof (cases "transactions e (mint e)")
    case (Some t)
    with assms obtain k where "k < ?n" "mint e = id_of e k" unfolding minted_ok_def by blast
    then show ?thesis using id_of_inj [of e k ?n] by (auto simp: mint_id_of)
  qed simp
qed

lemma minted_proxy_call:
  assumes "minted_ok e" and "nextTransactionIndex e < counter_limit"
  shows "minted_ok (fst (proxy_call e pname args))"
proof -
  let ?n = "nextTransactionIndex e"
  define e1 where "e1 = fst (proxy_call e pname args)"
  note e1 = e1_def [unfolded proxy_call_fst]
  have ids: "id_of e1 k = id_of e k" for k by (simp add: e1 id_of_def)
  have c: "call_ids (sent e1) = call_ids (sent e) @ [mint e]" by (simp add: e1 call_ids_append)
  have n: "nextTransactionIndex e1 = Suc ?n" using assms(2) by (simp add: e1 increment_below)
  have new: "\<exists>k<Suc ?n. mint e = id_of e k" using mint_id_of by blast
  have "distinct (call_ids (sent e1))"
    using assms(1) minted_fresh(1) [OF assms(1)] by (simp add: c minted_ok_def)
  moreover have "\<exists>k<nextTransactionIndex e1. tid = id_of e1 k" if "tid \<in> set (call_ids (sent e1))" for tid
  proof (cases "tid = mint e")
    case True
    then show ?thesis unfolding n ids using new by blast
  next
    case False
    with that have "tid \<in> set (call_ids (sent e))" by (simp add: c)
    with assms(1) obtain k where "k < ?n" "tid = id_of e k" by (auto simp: minted_ok_def)
    then show ?thesis unfolding n ids using less_Suc_eq by blast
  qed
  moreover have "\<exists>k<nextTransactionIndex e1. tid = id_of e1 k" if "transactions e1 tid = Some t" for tid t
  proof (cases "tid = mint e")
    case True
    then show ?thesis unfolding n ids using new by blast
  next
    case False
    with that have "transactions e tid = Some t" by (simp add: e1)
    with assms(1) obtain k where "k < ?n" "tid = id_of e k" unfolding minted_ok_def by blast
    then show ?thesis unfolding n ids using less_Suc_eq by blast
  qed
  ultimately show ?thesis unfolding minted_ok_def e1_def [symmetric] by blast
qed

lemma counter_step:
  "nextTransactionIndex (step methods e ev)
     = (if is_proxy_call ev then increment (nextTransactionIndex e) else nextTransactionIndex e)"
  by (cases ev)
     (auto simp: step_def is_proxy_call_def proxy_call_fst handler_def handle_call_frame
        handle_return_eq method_promise_settled_def split: CollabMessage.splits option.splits)

lemma minted_step:
  assumes "minted_ok e" and "is_proxy_call ev \<Longrightarrow> nextTransactionIndex e < counter_limit"
  shows "minted_ok (step methods e ev)"
  using assms
  by (cases ev)
     (auto simp: step_def is_proxy_call_def handler_def minted_proxy_call minted_handle_call
        minted_handle_return minted_method_promise_settled split: CollabMessage.splits)

lemma minted_run:
  "minted_ok e \<Longrightarrow> nextTransactionIndex e + proxy_calls evs \<le> counter_limit \<Longrightarrow>
   minted_ok (run methods e evs)
   \<and> nextTransactionIndex (run methods e evs) = nextTransactionIndex e + proxy_calls evs"
proof (induction evs arbitrary: e)
  case Nil
  then show ?case by (simp add: run_def proxy_calls_def)
next
  case (Cons ev evs)
  have r: "run methods e (ev # evs) = run methods (step methods e ev) evs" by (simp add: run_def)
  show ?case
  proof (cases "is_proxy_call ev")
    case True
    with Cons.prems have lt: "nextTransactionIndex e < counter_limit" by (simp add: proxy_calls_def)
    have m: "minted_ok (step methods e ev)" using Cons.prems(1) lt by (intro minted_step) simp_all
    have n: "nextTransactionIndex (step methods e ev) = Suc (nextTransactionIndex e)"
      using True lt by (simp add: counter_step increment_below)
    from Cons.IH [OF m] Cons.prems(2) True n show ?thesis by (simp add: r proxy_calls_def)
  next
    case False
    have m: "minted_ok (step methods e ev)" using Cons.prems(1) False by (intro minted_step) simp_all
    have n: "nextTransactionIndex (step methods e ev) = nextTransactionIndex e"
      using False by (simp add: counter_step)
    from Cons.IH [OF m] Cons.prems(2) False n show ?thesis by (simp add: r proxy_calls_def)
  qed
qed

lemma proxy_calls_replicate: "proxy_calls (replicate n (ProxyCall p args)) = n"
  by (simp add: proxy_calls_def is_proxy_call_def)

section \<open>A settled promise stays as it is\<close>

lemma step_settled:
  assumes "p < length (promises e)" and "promises e ! p \<noteq> Pending"
  shows "p < length (promises (step methods e ev)) \<and> promises (step methods e ev) ! p = promises e ! p"
proof (cases ev)
  case (ProxyCall pname args)
  with assms show ?thesis by (simp add: step_def proxy_call_fst nth_append)
next
  case (Receive message)
  with assms show ?thesis
    by (cases message)
       (auto simp: step_def handler_def handle_call_frame handle_return_def resolvePromise_def
          rejectPromise_def settle_def nth_list_update split: option.splits)
next
  case (MethodPromiseSettled h s)
  with assms show ?thesis by (simp add: step_def method_promise_settled_def)
qed

lemma run_settled:
  "p < length (promises e) \<Longrightarrow> promises e ! p \<noteq> Pending \<Longrightarrow>
   p < length (promises (run methods e evs)) \<and> promises (run methods e evs) ! p = promises e ! p"
proof (induction evs arbitrary: e)
  case Nil
  then show ?case by (simp add: run_def)
next
  case (Cons ev evs)
  from step_settled [OF Cons.prems, of methods ev]
  have s: "p < length (promises (step methods e ev))" "promises (step methods e ev) ! p = promises e ! p"
    by simp_all
  with Cons.prems have "promises (step methods e ev) ! p \<noteq> Pending" by simp
  from Cons.IH [OF s(1) this] s(2) show ?case by (simp add: run_def)
qed

section \<open>Synchronous methods\<close>

text \<open>
  Claim C1 as stated fails for a method named \<^verbatim>\<open>cleanupProxy\<close>: the proxy keeps that name
  for itself (line 163). With the table \<^verbatim>\<open>{ cleanupProxy() { return 1 } }\<close> on the other
  side, \<^verbatim>\<open>proxy.cleanupProxy()\<close> runs the adapter's cleanup function, which takes the
  handler out of the host, and returns \<^verbatim>\<open>undefined\<close>: no promise is made and no call
  envelope is sent.
\<close>

theorem reserved_name_is_not_remoted:
  "reserved_sync_methods ''cleanupProxy'' = Some (\<lambda>xs. Returns (Num 1))
   \<and> fst (collab FigmaPluginUI idle_host) = new_engine ''UI''
   \<and> window_onmessage ui_host
   \<and> proxy_method_call ui_cleanup (StringKey ''cleanupProxy'') [] (new_engine ''UI'') ui_host
       = ((new_engine ''UI'', idle_host), Returns Undefined)"
  by (simp add: reserved_sync_methods_def collab_def FigmaPluginUI_def ui_cleanup_def ui_host_def
      proxy_method_call_def proxy_get_def idle_host_def)

text \<open>
  Claim C1, amended. Let the table \<open>methods\<close> hold, under a name \<open>f\<close> other than
  \<^verbatim>\<open>cleanupProxy\<close>, a method that returns the value \<open>v\<close> (not a promise) on \<open>args\<close>. Then
  \<^verbatim>\<open>proxy.f(...args)\<close> on an engine \<open>a\<close> returns a fresh pending promise and sends a call
  envelope under the minted transaction id, leaving the host alone. Any engine \<open>b\<close> with
  that table, handling the envelope, invokes the method on exactly \<open>args\<close> and sends one
  return envelope with \<open>v\<close> under the same id. Handling that envelope, \<open>a\<close> fulfils the
  promise with \<open>v\<close>, raises nothing and drops the transaction.
\<close>

theorem sync_call_settles_to_value:
  assumes "methods f = Some impl" and "impl args = Returns v" and "f \<noteq> ''cleanupProxy''"
  shows "case proxy_method_call cleanupFunction (StringKey f) args a host of
           ((a1, host1), result) \<Rightarrow>
             result = ReturnsPromise (length (promises a))
           \<and> host1 = host
           \<and> sent a1 = sent a @ [CallMessage (mint a) f (Arr args)]
           \<and> promises a1 ! length (promises a) = Pending
           \<and> invoke methods f (Arr args) = impl args
           \<and> handler methods b (CallMessage (mint a) f (Arr args))
               = (toSendMessage b (ReturnMessage (mint a) v Undefined), None)
           \<and> (case handler methods' a1 (ReturnMessage (mint a) v Undefined) of (a2, thrown) \<Rightarrow>
                 thrown = None \<and> promises a2 ! length (promises a) = Fulfilled v
               \<and> transactions a2 (mint a) = None)"
  using assms
  by (simp add: proxy_method_call_remote proxy_call_fst handler_def handle_call_def
      toSendMessage_def invoke_found handle_return_def resolvePromise_def settle_def)

theorem sync_call_settles_to_value_witness:
  "add_methods ''add'' = Some add_impl \<and> add_impl [Num 2, Num 3] = Returns (Num 5)
   \<and> ''add'' \<noteq> ''cleanupProxy''
   \<and> (case proxy_method_call ui_cleanup (StringKey ''add'') [Num 2, Num 3] (new_engine ''UI'') ui_host of
         ((a1, host1), result) \<Rightarrow>
           result = ReturnsPromise 0
         \<and> sent a1 = [CallMessage ''UI:0'' ''add'' (Arr [Num 2, Num 3])]
         \<and> handler add_methods (new_engine ''Plugin'') (CallMessage ''UI:0'' ''add'' (Arr [Num 2, Num 3]))
             = (toSendMessage (new_engine ''Plugin'') (ReturnMessage ''UI:0'' (Num 5) Undefined), None)
         \<and> promises (fst (handler Map.empty a1 (ReturnMessage ''UI:0'' (Num 5) Undefined))) ! 0
             = Fulfilled (Num 5))"
proof -
  have h1: "add_methods ''add'' = Some add_impl" by (simp add: add_methods_def)
  have h2: "add_impl [Num 2, Num 3] = Returns (Num 5)" by (simp add: add_impl_def)
  have h3: "''add'' \<noteq> ''cleanupProxy''" by simp
  have n: "promises (new_engine ''UI'') = []" "sent (new_engine ''UI'') = []"
    by (simp_all add: new_engine_def)
  show ?thesis
    using sync_call_settles_to_value [where methods = add_methods and f = "''add''" and impl = add_impl
        and args = "[Num 2, Num 3]" and v = "Num 5" and a = "new_engine ''UI''"
        and b = "new_engine ''Plugin''" and methods' = Map.empty and cleanupFunction = ui_cleanup
        and host = ui_host] h1 h2 h3
    by (simp add: mint_new_engine n split: prod.splits)
qed

section \<open>Asynchronous methods\<close>

text \<open>
  Claim C2 as stated fails for a method named \<^verbatim>\<open>cleanupProxy\<close>, as claim C1 does: with an
  \<^verbatim>\<open>async\<close> method of that name on the other side, \<^verbatim>\<open>proxy.cleanupProxy()\<close> runs the
  adapter's cleanup function and returns \<^verbatim>\<open>undefined\<close>.
\<close>

theorem reserved_name_is_not_remoted_async:
  "reserved_async_methods ''cleanupProxy'' = Some (\<lambda>xs. ReturnsPromise 0)
   \<and> fst (collab FigmaPlugin idle_host) = new_engine ''Plugin''
   \<and> figma_ui_onmessage plugin_host
   \<and> proxy_method_call plugin_cleanup (StringKey ''cleanupProxy'') [] (new_engine ''Plugin'') plugin_host
       = ((new_engine ''Plugin'', idle_host), Returns Undefined)"
  by (simp add: reserved_async_methods_def collab_def FigmaPlugin_def plugin_cleanup_def plugin_host_def
      proxy_method_call_def proxy_get_def idle_host_def)

text \<open>
  Claim C2, amended. Let the method under a name \<open>f\<close> other than \<^verbatim>\<open>cleanupProxy\<close> return a
  promise \<open>h\<close> on \<open>args\<close>. Then \<^verbatim>\<open>proxy.f(...args)\<close> on an engine \<open>a\<close> returns a fresh pending
  promise and sends a call envelope. Handling it, the callee \<open>b\<close> sends nothing and
  registers a reaction on \<open>h\<close> for the call's transaction id. When \<open>h\<close> fulfils with \<open>v\<close>,
  the callee sends the return envelopes of the reactions on \<open>h\<close>: those registered before,
  then one for this call, carrying \<open>v\<close> itself under the call's id. The reactions are
  spent: whatever is reported for \<open>h\<close> afterwards sends nothing more. Handling the
  envelope, the caller fulfils the promise of the call with \<open>v\<close>, a value and not a
  promise, and drops the transaction.
\<close>

theorem async_call_settles_to_value:
  assumes "methods f = Some impl" and "impl args = ReturnsPromise h" and "f \<noteq> ''cleanupProxy''"
  shows "case proxy_method_call cleanupFunction (StringKey f) args a host of
           ((a1, host1), result) \<Rightarrow>
             result = ReturnsPromise (length (promises a))
           \<and> host1 = host
           \<and> sent a1 = sent a @ [CallMessage (mint a) f (Arr args)]
           \<and> promises a1 ! length (promises a) = Pending
           \<and> handler methods b (CallMessage (mint a) f (Arr args))
               = (b\<lparr>reactions := reactions b @ [(h, mint a)]\<rparr>, None)
           \<and> (let b1 = b\<lparr>reactions := reactions b @ [(h, mint a)]\<rparr>;
                   b2 = method_promise_settled h (Fulfils v) b1
               in sent b2 = sent b
                     @ map (\<lambda>r. ReturnMessage (snd r) v Undefined) (filter (\<lambda>r. fst r = h) (reactions b))
                     @ [ReturnMessage (mint a) v Undefined]
                \<and> sent (method_promise_settled h s b2) = sent b2)
           \<and> (case handler methods' a1 (ReturnMessage (mint a) v Undefined) of (a2, thrown) \<Rightarrow>
                 thrown = None \<and> promises a2 ! length (promises a) = Fulfilled v
               \<and> transactions a2 (mint a) = None)"
  using assms
  by (simp add: proxy_method_call_remote proxy_call_fst Let_def toSendMessage_def handler_def
      handle_call_def invoke_found handle_return_def resolvePromise_def settle_def
      method_promise_settled_def settled_message_def)

theorem async_call_settles_to_value_witness:
  "slow_methods ''slow'' = Some (\<lambda>xs. ReturnsPromise 0) \<and> ''slow'' \<noteq> ''cleanupProxy'' \<and>
   (case proxy_method_call plugin_cleanup (StringKey ''slow'') [] (new_engine ''Plugin'') plugin_host of
      ((a1, host1), result) \<Rightarrow>
        result = ReturnsPromise 0
      \<and> sent a1 = [CallMessage ''Plugin:0'' ''slow'' (Arr [])]
      \<and> handler slow_methods (new_engine ''UI'') (CallMessage ''Plugin:0'' ''slow'' (Arr []))
          = ((new_engine ''UI'')\<lparr>reactions := [(0, ''Plugin:0'')]\<rparr>, None)
      \<and> sent (method_promise_settled 0 (Fulfils (Str ''done''))
                ((new_engine ''UI'')\<lparr>reactions := [(0, ''Plugin:0'')]\<rparr>))
          = [ReturnMessage ''Plugin:0'' (Str ''done'') Undefined]
      \<and> promises (fst (handler Map.empty a1 (ReturnMessage ''Plugin:0'' (Str ''done'') Undefined))) ! 0
          = Fulfilled (Str ''done''))"
proof -
  have h1: "slow_methods ''slow'' = Some (\<lambda>xs. ReturnsPromise 0)" by (simp add: slow_methods_def)
  have h3: "''slow'' \<noteq> ''cleanupProxy''" by simp
  have n: "promises (new_engine ''Plugin'') = []" "sent (new_engine ''Plugin'') = []"
    "reactions (new_engine ''UI'') = []" "sent (new_engine ''UI'') = []"
    by (simp_all add: new_engine_def)
  show ?thesis
    using async_call_settles_to_value [where methods = slow_methods and f = "''slow''"
        and impl = "\<lambda>xs. ReturnsPromise 0" and args = "[]" and h = 0 and a = "new_engine ''Plugin''"
        and b = "new_engine ''UI''" and v = "Str ''done''" and methods' = Map.empty
        and s = "Fulfils (Str ''done'')" and cleanupFunction = plugin_cleanup and host = plugin_host]
      h1 h3
    by (simp add: mint_new_engine n Let_def split: prod.splits)
qed

section \<open>Unknown methods\<close>

text \<open>
  Claim C3 says that a call to a name absent from the table is answered by exactly one
  return envelope. The code answers with two. The branch on line 74 sends the
  unknown-method envelope and then runs on into line 88, which calls \<^verbatim>\<open>undefined\<close>; the
  \<^verbatim>\<open>TypeError\<close> is caught on line 121 and sent as a second return envelope under the same
  id. The caller rejects its promise on the first and, the transaction being gone,
  raises the unknown-transaction fault on the second. Here the engine \<^verbatim>\<open>UI\<close> has called
  \<^verbatim>\<open>proxy.getColors()\<close> and the engine \<^verbatim>\<open>Plugin\<close> has an empty table.
\<close>

theorem unknown_method_sends_two_returns:
  "sent (fst (handler Map.empty (new_engine ''Plugin'') (CallMessage ''UI:0'' ''getColors'' (Arr []))))
     = [ReturnMessage ''UI:0'' Undefined (ErrorObj ''Unknown method \"getColors\"!''),
        ReturnMessage ''UI:0'' Undefined (Str not_a_function_message)]
   \<and> (case handler Map.empty pending_engine
              (ReturnMessage ''UI:0'' Undefined (ErrorObj ''Unknown method \"getColors\"!'')) of
         (a1, thrown) \<Rightarrow>
           thrown = None
         \<and> promises a1 = [Rejected (ErrorObj ''Unknown method \"getColors\"!'')]
         \<and> snd (handler Map.empty a1 (ReturnMessage ''UI:0'' Undefined (Str not_a_function_message)))
             = Some (ErrorObj ''Return value for unknown transaction ID UI:0 arrived!''))"
  by (simp add: handler_def handle_call_def invoke_def spread_def toSendMessage_def
      console_error_def normalize_ex_def unknown_method_message_def new_engine_def
      pending_engine_eq handle_return_def rejectPromise_def settle_def
      unknown_transaction_message_def)

section \<open>What is sent for a caught fault\<close>

text \<open>
  Claim C4 as stated fails: a method that throws the number 42 is answered with the number
  42 in the error field, which is not a message string.
\<close>

theorem thrown_number_is_sent_unchanged:
  "sent (fst (handler throw42_methods (new_engine ''Plugin'') (CallMessage ''UI:0'' ''fail'' (Arr []))))
     = [ReturnMessage ''UI:0'' Undefined (Num 42)] \<and> \<not> is_message_string (Num 42)"
  by (simp add: handler_def handle_call_def invoke_def spread_def toSendMessage_def
      normalize_ex_def throw42_methods_def new_engine_def is_message_string_def)

text \<open>
  Claim C4, amended. Let the fault \<open>ex\<close> be neither \<^verbatim>\<open>undefined\<close> nor \<^verbatim>\<open>null\<close>. When a method
  of the table throws \<open>ex\<close> on being invoked, the handler sends one return envelope whose
  error field is \<open>normalize_ex ex\<close>, and when a promise that a method returned rejects
  with \<open>ex\<close>, each reaction on it sends a return envelope whose error field is
  \<open>normalize_ex ex\<close>. That is the message string of \<open>ex\<close> when \<open>ex\<close> is an \<^verbatim>\<open>Error\<close>, and
  \<open>ex\<close> itself, unchanged, when it is not.
\<close>

theorem caught_fault_normalized:
  "(\<forall>f. methods func = Some f \<longrightarrow> invoke methods func args = Throws ex \<longrightarrow>
        ex \<noteq> Undefined \<longrightarrow> ex \<noteq> Null \<longrightarrow>
      handler methods e (CallMessage tid func args)
        = (toSendMessage e (ReturnMessage tid Undefined (normalize_ex ex)), None))
   \<and> (ex \<noteq> Undefined \<longrightarrow> ex \<noteq> Null \<longrightarrow>
      sent (method_promise_settled h (Rejects ex) e)
        = sent e @ map (\<lambda>r. ReturnMessage (snd r) Undefined (normalize_ex ex))
                     (filter (\<lambda>r. fst r = h) (reactions e)))
   \<and> (\<forall>m. normalize_ex (ErrorObj m) = Str m \<and> is_message_string (normalize_ex (ErrorObj m)))
   \<and> (\<not> is_Error ex \<longrightarrow> normalize_ex ex = ex)"
proof -
  have a: "handler methods e (CallMessage tid func args)
        = (toSendMessage e (ReturnMessage tid Undefined (normalize_ex ex)), None)"
    if "methods func = Some f" "invoke methods func args = Throws ex" for f
    using that by (simp add: handler_def handle_call_def)
  have b: "sent (method_promise_settled h (Rejects ex) e)
       = sent e @ map (\<lambda>r. ReturnMessage (snd r) Undefined (normalize_ex ex))
                    (filter (\<lambda>r. fst r = h) (reactions e))"
    by (simp add: method_promise_settled_def settled_message_def)
  have c: "normalize_ex (ErrorObj m) = Str m \<and> is_message_string (normalize_ex (ErrorObj m))" for m
    by (simp add: normalize_ex_def is_message_string_def)
  have d: "\<not> is_Error ex \<Longrightarrow> normalize_ex ex = ex"
    by (cases ex) (simp_all add: is_Error_def normalize_ex_def)
  from a b c d show ?thesis by blast
qed

theorem caught_fault_normalized_witness:
  "throw_error_methods ''fail'' = Some (\<lambda>xs. Throws (ErrorObj ''disk full''))
   \<and> invoke throw_error_methods ''fail'' (Arr []) = Throws (ErrorObj ''disk full'')
   \<and> handler throw_error_methods (new_engine ''Plugin'') (CallMessage ''UI:0'' ''fail'' (Arr []))
       = (toSendMessage (new_engine ''Plugin'') (ReturnMessage ''UI:0'' Undefined (Str ''disk full'')), None)
   \<and> sent (method_promise_settled 0 (Rejects (Num 42))
             ((new_engine ''Plugin'')\<lparr>reactions := [(0, ''UI:0'')]\<rparr>))
       = [ReturnMessage ''UI:0'' Undefined (Num 42)]
   \<and> \<not> is_Error (Num 42)"
proof -
  have h1: "throw_error_methods ''fail'' = Some (\<lambda>xs. Throws (ErrorObj ''disk full''))"
    by (simp add: throw_error_methods_def)
  have h2: "invoke throw_error_methods ''fail'' (Arr []) = Throws (ErrorObj ''disk full'')"
    by (simp add: invoke_def spread_def throw_error_methods_def)
  have h3: "\<not> is_Error (Num 42)" by (simp add: is_Error_def)
  have n: "sent (new_engine ''Plugin'') = []" by (simp add: new_engine_def)
  show ?thesis
    using caught_fault_normalized [where methods = throw_error_methods and func = "''fail''"
        and args = "Arr []" and ex = "ErrorObj ''disk full''" and e = "new_engine ''Plugin''"
        and tid = "''UI:0''"]
      caught_fault_normalized [where ex = "Num 42" and h = 0
        and e = "(new_engine ''Plugin'')\<lparr>reactions := [(0, ''UI:0'')]\<rparr>"]
      h1 h2 h3 n
    by simp
qed

section \<open>A thrown fault that is not delivered as a failure\<close>

text \<open>
  Claim C5 says that a fault thrown by a method makes the caller's promise fail. For a
  method that throws \<^verbatim>\<open>undefined\<close> the code does otherwise: the fault is caught, nothing
  leaves the handler, but line 127 passes the thrown value on as the error field, so the
  return envelope carries no error, and the caller's handler (line 136) fulfils the
  promise with \<^verbatim>\<open>undefined\<close>.
\<close>

theorem thrown_undefined_resolves_caller:
  "handler boom_methods (new_engine ''Plugin'') (CallMessage ''UI:0'' ''boom'' (Arr []))
     = (toSendMessage (new_engine ''Plugin'') (ReturnMessage ''UI:0'' Undefined Undefined), None)
   \<and> promises (fst (handler Map.empty pending_engine (ReturnMessage ''UI:0'' Undefined Undefined)))
     = [Fulfilled Undefined]"
  by (simp add: handler_def handle_call_def invoke_def spread_def
      normalize_ex_def boom_methods_def pending_engine_eq handle_return_def resolvePromise_def settle_def)

text \<open>
  What does hold of a thrown fault. When a method of the table throws \<open>ex\<close> and the
  normalised fault is neither \<^verbatim>\<open>undefined\<close> nor \<^verbatim>\<open>null\<close>, the handler raises nothing and
  sends one return envelope with the normalised fault under the call's id; a caller that
  holds a pending promise under that id rejects it with the normalised fault and drops
  the transaction.
\<close>

theorem thrown_fault_reaches_caller:
  assumes "methods func = Some f" and "invoke methods func args = Throws ex"
    and "normalize_ex ex \<noteq> Undefined" and "normalize_ex ex \<noteq> Null"
    and "transactions a tid = Some t" and "promise t < length (promises a)"
    and "promises a ! promise t = Pending"
  shows "handler methods b (CallMessage tid func args)
           = (toSendMessage b (ReturnMessage tid Undefined (normalize_ex ex)), None)
       \<and> (case handler methods' a (ReturnMessage tid Undefined (normalize_ex ex)) of (a1, thrown) \<Rightarrow>
             thrown = None \<and> promises a1 ! promise t = Rejected (normalize_ex ex)
           \<and> transactions a1 tid = None)"
  using assms
  by (simp add: handler_def handle_call_def handle_return_def rejectPromise_def settle_def)

theorem thrown_fault_reaches_caller_witness:
  "handler throw_error_methods (new_engine ''Plugin'') (CallMessage ''UI:0'' ''fail'' (Arr []))
     = (toSendMessage (new_engine ''Plugin'') (ReturnMessage ''UI:0'' Undefined (Str ''disk full'')), None)
   \<and> promises (fst (handler Map.empty pending_engine (ReturnMessage ''UI:0'' Undefined (Str ''disk full'')))) ! 0
       = Rejected (Str ''disk full'')"
proof -
  have h1: "throw_error_methods ''fail'' = Some (\<lambda>xs. Throws (ErrorObj ''disk full''))"
    by (simp add: throw_error_methods_def)
  have h2: "invoke throw_error_methods ''fail'' (Arr []) = Throws (ErrorObj ''disk full'')"
    by (simp add: invoke_def spread_def throw_error_methods_def)
  have h3: "normalize_ex (ErrorObj ''disk full'') \<noteq> Undefined" "normalize_ex (ErrorObj ''disk full'') \<noteq> Null"
    and n: "normalize_ex (ErrorObj ''disk full'') = Str ''disk full''"
    by (simp_all add: normalize_ex_def)
  have h5: "transactions pending_engine ''UI:0'' = Some \<lparr>transactionID = ''UI:0'', promise = 0\<rparr>"
    by (simp add: pending_engine_eq)
  have h6: "promise \<lparr>transactionID = ''UI:0'', promise = 0\<rparr> < length (promises pending_engine)"
    by (simp add: pending_engine_eq)
  have h7: "promises pending_engine ! promise \<lparr>transactionID = ''UI:0'', promise = 0\<rparr> = Pending"
    by (simp add: pending_engine_eq)
  show ?thesis
    using thrown_fault_reaches_caller [OF h1 h2 h3 h5 h6 h7, where b = "new_engine ''Plugin''"
        and methods' = Map.empty]
    by (simp add: n split: prod.splits)
qed


section \<open>Settling on a return envelope\<close>

text \<open>
  Claim C6 as stated fails: it settles the promise as a failure whenever the error field
  is present. With the error field present and \<^verbatim>\<open>null\<close>, the code settles it as a
  success.
\<close>

theorem null_error_settles_as_success:
  "transactions pending_engine ''UI:0'' = Some \<lparr>transactionID = ''UI:0'', promise = 0\<rparr>
   \<and> promises pending_engine = [Pending]
   \<and> Null \<noteq> Undefined
   \<and> promises (fst (handler Map.empty pending_engine (ReturnMessage ''UI:0'' (Num 1) Null)))
       = [Fulfilled (Num 1)]
   \<and> Fulfilled (Num 1) \<noteq> Rejected Null"
  by (simp add: pending_engine_eq handler_def handle_return_def resolvePromise_def settle_def)

text \<open>
  Claim C6, amended. On a return envelope whose transaction id is registered, with a
  pending promise, the handler raises nothing and settles the promise: as a success with
  the envelope's value, whatever it is, when the error field is absent (\<^verbatim>\<open>undefined\<close>) or
  \<^verbatim>\<open>null\<close>, and as a failure with the error otherwise.
\<close>

theorem return_settles_by_error_field:
  assumes "transactions e tid = Some t" and "promise t < length (promises e)"
    and "promises e ! promise t = Pending"
  shows "case handler methods e (ReturnMessage tid v ex) of (e1, thrown) \<Rightarrow>
           thrown = None
         \<and> promises e1 ! promise t = (if ex = Undefined \<or> ex = Null then Fulfilled v else Rejected ex)"
  using assms
  by (simp add: handler_def handle_return_def resolvePromise_def rejectPromise_def settle_def)

theorem return_settles_by_error_field_witness:
  "promises (fst (handler Map.empty pending_engine (ReturnMessage ''UI:0'' Undefined Undefined))) ! 0
     = Fulfilled Undefined
   \<and> promises (fst (handler Map.empty pending_engine (ReturnMessage ''UI:0'' Undefined (Str ''no'')))) ! 0
     = Rejected (Str ''no'')"
proof -
  have h1: "transactions pending_engine ''UI:0'' = Some \<lparr>transactionID = ''UI:0'', promise = 0\<rparr>"
    by (simp add: pending_engine_eq)
  have h2: "promise \<lparr>transactionID = ''UI:0'', promise = 0\<rparr> < length (promises pending_engine)"
    by (simp add: pending_engine_eq)
  have h3: "promises pending_engine ! promise \<lparr>transactionID = ''UI:0'', promise = 0\<rparr> = Pending"
    by (simp add: pending_engine_eq)
  show ?thesis
    using return_settles_by_error_field [OF h1 h2 h3, where methods = Map.empty and v = Undefined and ex = Undefined]
      return_settles_by_error_field [OF h1 h2 h3, where methods = Map.empty and v = Undefined and ex = "Str ''no''"]
    by (simp split: prod.splits)
qed

section \<open>At most one settlement\<close>

text \<open>
  Claim C7. A return envelope for a registered transaction is handled without a fault and
  removes the transaction, whatever its value and error fields are; handling a second
  return envelope for the same id then changes nothing at all and raises the
  unknown-transaction fault. And a promise of the store that is settled keeps its state
  through every run of the engine: no event settles it again or makes it pending.
\<close>

theorem transaction_settles_at_most_once:
  "(\<forall>t. transactions e tid = Some t \<longrightarrow>
      (case handler methods e (ReturnMessage tid v ex) of (e1, thrown) \<Rightarrow>
         thrown = None \<and> transactions e1 tid = None
       \<and> handler methods e1 (ReturnMessage tid v' ex')
           = (e1, Some (ErrorObj (unknown_transaction_message tid)))))
   \<and> (\<forall>p. p < length (promises e) \<longrightarrow> promises e ! p \<noteq> Pending \<longrightarrow>
        promises (run methods e evs) ! p = promises e ! p)"
proof (intro conjI allI impI)
  fix t
  assume "transactions e tid = Some t"
  then show "case handler methods e (ReturnMessage tid v ex) of (e1, thrown) \<Rightarrow>
         thrown = None \<and> transactions e1 tid = None
       \<and> handler methods e1 (ReturnMessage tid v' ex')
           = (e1, Some (ErrorObj (unknown_transaction_message tid)))"
    by (simp add: handle_return_found) (simp add: handler_def handle_return_def)
next
  fix p
  assume "p < length (promises e)" "promises e ! p \<noteq> Pending"
  then show "promises (run methods e evs) ! p = promises e ! p"
    using run_settled by blast
qed

theorem transaction_settles_at_most_once_witness:
  "transactions pending_engine ''UI:0'' = Some \<lparr>transactionID = ''UI:0'', promise = 0\<rparr>
   \<and> (case handler Map.empty pending_engine (ReturnMessage ''UI:0'' (Num 1) Undefined) of (e1, thrown) \<Rightarrow>
        thrown = None \<and> transactions e1 ''UI:0'' = None \<and> promises e1 = [Fulfilled (Num 1)]
      \<and> handler Map.empty e1 (ReturnMessage ''UI:0'' (Num 2) (Str ''late''))
          = (e1, Some (ErrorObj (unknown_transaction_message ''UI:0'')))
      \<and> promises (run Map.empty e1
           [Receive (ReturnMessage ''UI:0'' (Num 2) (Str ''late'')), ProxyCall ''getColors'' []]) ! 0
          = Fulfilled (Num 1))"
proof -
  have h: "transactions pending_engine ''UI:0'' = Some \<lparr>transactionID = ''UI:0'', promise = 0\<rparr>"
    by (simp add: pending_engine_eq)
  have r: "handler Map.empty pending_engine (ReturnMessage ''UI:0'' (Num 1) Undefined)
      = (pending_engine\<lparr>promises := [Fulfilled (Num 1)], transactions := Map.empty\<rparr>, None)"
    by (simp add: handle_return_found [OF h] settle_def) (simp add: pending_engine_eq)
  show ?thesis
    using transaction_settles_at_most_once [where e = pending_engine and tid = "''UI:0''"
        and methods = Map.empty and v = "Num 1" and ex = Undefined and v' = "Num 2" and ex' = "Str ''late''"]
      transaction_settles_at_most_once [where e = "pending_engine\<lparr>promises := [Fulfilled (Num 1)], transactions := Map.empty\<rparr>"
        and methods = Map.empty
        and evs = "[Receive (ReturnMessage ''UI:0'' (Num 2) (Str ''late'')), ProxyCall ''getColors'' []]"]
      h
    by (simp add: r)
qed

section \<open>Transaction ids\<close>

text \<open>
  Claim C8 as stated fails: the counter is a double and stops at \<open>2^53\<close>. An engine whose
  proxy has been called \<open>2^53\<close> times has its counter at \<open>2^53\<close>; the next call mints the
  id of that value and leaves the counter where it is, and the call after it mints the
  same id again. So the ids of \<open>2^53 + 2\<close> calls are not distinct.
\<close>

theorem counter_stops_and_ids_repeat:
  "nextTransactionIndex (run Map.empty (new_engine ''UI'') (calls_only counter_limit)) = counter_limit
   \<and> nextTransactionIndex (run Map.empty (new_engine ''UI'') (calls_only (counter_limit + 1)))
       = counter_limit
   \<and> mint (run Map.empty (new_engine ''UI'') (calls_only (counter_limit + 1)))
       = mint (run Map.empty (new_engine ''UI'') (calls_only counter_limit))
   \<and> \<not> distinct (call_ids (sent (run Map.empty (new_engine ''UI'') (calls_only (counter_limit + 2)))))"
proof -
  let ?ev = "ProxyCall ''getColors'' []"
  define e0 where "e0 = run Map.empty (new_engine ''UI'') (calls_only counter_limit)"
  define e1 where "e1 = step Map.empty e0 ?ev"
  define e2 where "e2 = step Map.empty e1 ?ev"
  have r1: "run Map.empty (new_engine ''UI'') (calls_only (counter_limit + 1)) = e1"
    unfolding calls_only_def e0_def e1_def by (simp only: Suc_eq_plus1 [symmetric] run_replicate_Suc)
  have "counter_limit + 2 = Suc (Suc counter_limit)" by simp
  then have r2: "run Map.empty (new_engine ''UI'') (calls_only (counter_limit + 2)) = e2"
    unfolding calls_only_def e0_def e1_def e2_def by (simp only: run_replicate_Suc)
  have n0: "nextTransactionIndex e0 = counter_limit"
    using minted_run [OF minted_new_engine, of "''UI''" "calls_only counter_limit" Map.empty]
    by (simp add: e0_def calls_only_def proxy_calls_replicate new_engine_def)
  have n1: "nextTransactionIndex e1 = counter_limit"
    by (simp add: e1_def counter_step is_proxy_call_def n0 increment_limit)
  have nm1: "options_name e1 = options_name e0" by (simp add: e1_def name_step)
  have m: "mint e1 = mint e0" by (simp only: mint_def n0 n1 nm1)
  have s1: "sent e1 = sent e0 @ [CallMessage (mint e0) ''getColors'' (Arr [])]"
    by (simp add: e1_def step_def proxy_call_fst)
  have s2: "sent e2 = sent e1 @ [CallMessage (mint e1) ''getColors'' (Arr [])]"
    by (simp add: e2_def step_def proxy_call_fst)
  have "call_ids (sent e2) = call_ids (sent e0) @ [mint e0, mint e0]"
    by (simp add: s2 s1 m call_ids_append)
  then have nd: "\<not> distinct (call_ids (sent e2))" by simp
  show ?thesis unfolding r1 r2 e0_def [symmetric] using n0 n1 m nd by simp
qed

text \<open>
  Claim C8, amended. In the state \<open>e\<close> that an engine named \<open>nm\<close> reaches by a run with
  fewer than \<open>2^53\<close> proxy calls: the counter is the number of proxy calls made; the ids of
  the call envelopes sent so far are distinct; the next id is \<open>nm\<close>, a colon and the
  decimal counter; it differs from every id sent so far and is not registered; a proxy
  call raises the counter by one. And in the state reached by any run at all, a return
  envelope for a registered id \<open>a\<close> settles the promise registered under \<open>a\<close> according
  to the envelope, leaves every other promise of the store as it was, and leaves any
  other registered transaction \<open>b\<close> registered, its promise pending.
\<close>

theorem transaction_ids_are_unique:
  "let e = run methods (new_engine nm) evs in
     (proxy_calls evs < counter_limit \<longrightarrow>
        nextTransactionIndex e = proxy_calls evs
      \<and> distinct (call_ids (sent e))
      \<and> mint e = nm @ '':'' @ string_of_nat (nextTransactionIndex e)
      \<and> mint e \<notin> set (call_ids (sent e))
      \<and> transactions e (mint e) = None
      \<and> nextTransactionIndex (fst (proxy_call e pname args)) = Suc (nextTransactionIndex e))
   \<and> (\<forall>a b ta tb. transactions e a = Some ta \<longrightarrow> transactions e b = Some tb \<longrightarrow> a \<noteq> b \<longrightarrow>
        (case handler methods e (ReturnMessage a v ex) of (e1, thrown) \<Rightarrow>
           promises e1 ! promise ta = (if ex = Undefined \<or> ex = Null then Fulfilled v else Rejected ex)
         \<and> promises e1 ! promise tb = Pending
         \<and> transactions e1 b = Some tb
         \<and> (\<forall>p. p \<noteq> promise ta \<longrightarrow> promises e1 ! p = promises e ! p)))"
proof -
  define e where "e = run methods (new_engine nm) evs"
  have wf: "wf e" unfolding e_def by (rule wf_run) (rule wf_new_engine)
  then have reg: "registry_ok e" and uns: "promises_unshared e"
    by (simp_all add: wf_def)
  have nm: "options_name e = nm" by (simp add: e_def name_run new_engine_def)
  have ids: "nextTransactionIndex e = proxy_calls evs
      \<and> distinct (call_ids (sent e))
      \<and> mint e = nm @ '':'' @ string_of_nat (nextTransactionIndex e)
      \<and> mint e \<notin> set (call_ids (sent e))
      \<and> transactions e (mint e) = None
      \<and> nextTransactionIndex (fst (proxy_call e pname args)) = Suc (nextTransactionIndex e)"
    if b: "proxy_calls evs < counter_limit"
  proof -
    from minted_run [OF minted_new_engine, of nm evs methods] b
    have mnt: "minted_ok e" and n: "nextTransactionIndex e = proxy_calls evs"
      by (simp_all add: e_def new_engine_def)
    have 1: "distinct (call_ids (sent e))" using mnt by (simp add: minted_ok_def)
    have 2: "mint e = nm @ '':'' @ string_of_nat (nextTransactionIndex e)" by (simp add: mint_def nm)
    have 5: "nextTransactionIndex (fst (proxy_call e pname args)) = Suc (nextTransactionIndex e)"
      using b n by (simp add: proxy_call_fst increment_below)
    from n 1 2 minted_fresh [OF mnt] 5 show ?thesis by simp
  qed
  have 6: "case handler methods e (ReturnMessage a v ex) of (e1, thrown) \<Rightarrow>
           promises e1 ! promise ta = (if ex = Undefined \<or> ex = Null then Fulfilled v else Rejected ex)
         \<and> promises e1 ! promise tb = Pending
         \<and> transactions e1 b = Some tb
         \<and> (\<forall>p. p \<noteq> promise ta \<longrightarrow> promises e1 ! p = promises e ! p)"
    if "transactions e a = Some ta" "transactions e b = Some tb" "a \<noteq> b" for a b ta tb
  proof -
    from reg that have pa: "promise ta < length (promises e)" "promises e ! promise ta = Pending"
      and pb: "promises e ! promise tb = Pending"
      by (auto simp: registry_ok_def)
    from uns that have ne: "promise tb \<noteq> promise ta" unfolding promises_unshared_def by blast
    show ?thesis
      using that pa pb ne by (simp add: handle_return_found settle_def)
  qed
  have 7: "\<forall>a b ta tb. transactions e a = Some ta \<longrightarrow> transactions e b = Some tb \<longrightarrow> a \<noteq> b \<longrightarrow>
        (case handler methods e (ReturnMessage a v ex) of (e1, thrown) \<Rightarrow>
           promises e1 ! promise ta = (if ex = Undefined \<or> ex = Null then Fulfilled v else Rejected ex)
         \<and> promises e1 ! promise tb = Pending
         \<and> transactions e1 b = Some tb
         \<and> (\<forall>p. p \<noteq> promise ta \<longrightarrow> promises e1 ! p = promises e ! p))"
    by (intro allI impI, rule 6)
  have 8: "proxy_calls evs < counter_limit \<longrightarrow>
        nextTransactionIndex e = proxy_calls evs
      \<and> distinct (call_ids (sent e))
      \<and> mint e = nm @ '':'' @ string_of_nat (nextTransactionIndex e)
      \<and> mint e \<notin> set (call_ids (sent e))
      \<and> transactions e (mint e) = None
      \<and> nextTransactionIndex (fst (proxy_call e pname args)) = Suc (nextTransactionIndex e)"
    by (rule impI) (rule ids)
  show ?thesis unfolding Let_def e_def [symmetric] by (rule conjI [OF 8 7])
qed

theorem transaction_ids_are_unique_witness:
  "proxy_calls two_calls < counter_limit
   \<and> call_ids (sent (run Map.empty (new_engine ''UI'') two_calls)) = [''UI:0'', ''UI:1'']
   \<and> mint (run Map.empty (new_engine ''UI'') two_calls) = ''UI:2''
   \<and> nextTransactionIndex (fst (proxy_call (run Map.empty (new_engine ''UI'') two_calls) ''f'' [])) = 3
   \<and> promises (fst (handler Map.empty (run Map.empty (new_engine ''UI'') two_calls)
         (ReturnMessage ''UI:1'' (Num 7) Undefined))) ! 1 = Fulfilled (Num 7)
   \<and> promises (fst (handler Map.empty (run Map.empty (new_engine ''UI'') two_calls)
         (ReturnMessage ''UI:1'' (Num 7) Undefined))) ! 0 = Pending"
proof -
  let ?e = "run Map.empty (new_engine ''UI'') two_calls"
  note T = transaction_ids_are_unique [where methods = Map.empty and nm = "''UI''" and evs = two_calls
        and v = "Num 7" and ex = Undefined and pname = "''f''" and args = "[]", unfolded Let_def]
  have s2: "string_of_nat 2 = ''2''" by code_simp
  have p: "proxy_calls two_calls = 2" by (simp add: proxy_calls_def two_calls_def is_proxy_call_def)
  have h: "proxy_calls two_calls < counter_limit" by (simp add: p small_below_limit)
  have a: "transactions ?e ''UI:1'' = Some \<lparr>transactionID = ''UI:1'', promise = 1\<rparr>"
    and b: "transactions ?e ''UI:0'' = Some \<lparr>transactionID = ''UI:0'', promise = 0\<rparr>"
    and c: "call_ids (sent ?e) = [''UI:0'', ''UI:1'']"
    by (simp_all add: run_two_calls)
  note I = T [THEN conjunct1, rule_format, OF h]
  from I have n: "nextTransactionIndex ?e = 2" by (simp add: p)
  from I have m: "mint ?e = ''UI:2''" by (simp add: p s2)
  from I have k: "nextTransactionIndex (fst (proxy_call ?e ''f'' [])) = 3" by (simp add: p)
  have ne: "''UI:1'' \<noteq> ''UI:0''" by simp
  from T [THEN conjunct2, rule_format, OF a b ne]
  have "promises (fst (handler Map.empty ?e (ReturnMessage ''UI:1'' (Num 7) Undefined))) ! 1 = Fulfilled (Num 7)"
    and "promises (fst (handler Map.empty ?e (ReturnMessage ''UI:1'' (Num 7) Undefined))) ! 0 = Pending"
    by (simp_all split: prod.splits)
  with h c m k show ?thesis by simp
qed

section \<open>Protocol faults\<close>

text \<open>
  Claim C9. On a return envelope whose transaction id is not registered, and on an
  envelope whose type is neither call nor return, the handler raises a fault that names
  the condition, and the engine's state is exactly what it was: no promise is settled and
  no transaction is added or removed.
\<close>

theorem protocol_faults_raise:
  "(transactions e tid = None \<longrightarrow>
      handler methods e (ReturnMessage tid v ex) = (e, Some (ErrorObj (unknown_transaction_message tid))))
   \<and> handler methods e (OtherMessage t) = (e, Some (ErrorObj (unknown_type_message t)))"
  by (simp add: handler_def handle_return_def)

theorem protocol_faults_raise_witness:
  "transactions pending_engine ''UI:7'' = None
   \<and> handler Map.empty pending_engine (ReturnMessage ''UI:7'' (Num 1) Undefined)
       = (pending_engine, Some (ErrorObj ''Return value for unknown transaction ID UI:7 arrived!''))
   \<and> handler Map.empty pending_engine (OtherMessage ''ping'')
       = (pending_engine, Some (ErrorObj ''Unknown message with type ping arrived!''))"
proof -
  have h: "transactions pending_engine ''UI:7'' = None" by (simp add: pending_engine_eq)
  show ?thesis
    using protocol_faults_raise [where e = pending_engine and tid = "''UI:7''" and methods = Map.empty
        and v = "Num 1" and ex = Undefined and t = "''ping''"] h
    by (simp add: unknown_transaction_message_def unknown_type_message_def)
qed

section \<open>The cleanupProxy property\<close>

text \<open>
  Claim C10. When the adapter's \<^verbatim>\<open>toHandleMessage\<close> returns nothing, the proxy's
  \<^verbatim>\<open>cleanupProxy\<close> property reads as \<^verbatim>\<open>undefined\<close> and calling it throws a \<^verbatim>\<open>TypeError\<close> at
  the call site, the host and the engine staying as they are. When the adapter returns a
  cleanup function, the property is that function and calling it runs it on the host.
\<close>

theorem cleanupProxy_is_the_adapters_result:
  "case collab options host of (e, cleanupFunction, host1) \<Rightarrow>
     (snd (toHandleMessage options host) = None \<longrightarrow>
        proxy_get cleanupFunction (StringKey ''cleanupProxy'') = Inr UndefinedProperty
      \<and> proxy_method_call cleanupFunction (StringKey ''cleanupProxy'') [] e host1
          = ((e, host1), Throws (ErrorObj not_callable_message)))
   \<and> (\<forall>f. snd (toHandleMessage options host) = Some f \<longrightarrow>
        proxy_get cleanupFunction (StringKey ''cleanupProxy'') = Inr (CleanupFunction f)
      \<and> proxy_method_call cleanupFunction (StringKey ''cleanupProxy'') [] e host1
          = ((e, f host1), Returns Undefined))"
  by (simp add: collab_def proxy_get_def proxy_method_call_def not_callable_message_def
      split: prod.splits)

theorem cleanupProxy_is_the_adapters_result_witness:
  "snd (toHandleMessage no_cleanup_options idle_host) = None
   \<and> (case collab no_cleanup_options idle_host of (e, cleanupFunction, host1) \<Rightarrow>
        window_onmessage host1
      \<and> proxy_method_call cleanupFunction (StringKey ''cleanupProxy'') [] e host1
          = ((e, host1), Throws (ErrorObj not_callable_message)))
   \<and> (case collab FigmaPluginUI idle_host of (e, cleanupFunction, host1) \<Rightarrow>
        window_onmessage host1
      \<and> proxy_method_call cleanupFunction (StringKey ''cleanupProxy'') [] e host1
          = ((e, idle_host), Returns Undefined))"
proof -
  have h1: "snd (toHandleMessage no_cleanup_options idle_host) = None"
    by (simp add: no_cleanup_options_def)
  have h2: "snd (toHandleMessage FigmaPluginUI idle_host) = Some (\<lambda>h. h\<lparr>window_onmessage := False\<rparr>)"
    by (simp add: FigmaPluginUI_def)
  show ?thesis
    using cleanupProxy_is_the_adapters_result [where options = no_cleanup_options and host = idle_host]
      cleanupProxy_is_the_adapters_result [where options = FigmaPluginUI and host = idle_host] h1 h2
    by (simp add: collab_def no_cleanup_options_def FigmaPluginUI_def idle_host_def split: prod.splits)
qed

end
